theory Spec2Isabelle
  imports
    Complex_Main
    "HOL-Library.Word"
    "HOL-Library.Char_ord"
    "HOL-Library.List_Lexorder"
    "HOL-Library.Product_Lexorder"
begin

unbundle bit_operations_syntax

section \<open>Python values and exceptions\<close>

text \<open>
  The embedding follows \<^verbatim>\<open>scope.py\<close> and \<^verbatim>\<open>streams.py\<close>. Python floats are
  modelled as exact reals: every quotient below is the mathematical one, with no binary
  rounding. Python integers are \<open>int\<close>. Every \<^verbatim>\<open>raise\<close> and every failing
  \<^verbatim>\<open>assert\<close> of the source is a value of \<open>error\<close>, returned as \<open>Inl\<close>.
  \<open>Awaits_forever\<close> is no exception: it stands for a coroutine that stays suspended
  on a read the device never answers, so that not returning is a value too.
\<close>

datatype error =
    ZeroDivisionError
  | Unsupported_clock_period int
  | AssertionError
  | IndexError
  | UnboundLocalError
  | StructError
  | No_solution
  | Wavetable_size
  | KeyError
  | OverflowError
  | SerialException
  | Awaits_forever

text \<open>\<^verbatim>\<open>int(x)\<close> on a float truncates towards zero.\<close>

definition py_int :: "real \<Rightarrow> int" where
  "py_int x = (if 0 \<le> x then \<lfloor>x\<rfloor> else \<lceil>x\<rceil>)"

text \<open>\<^verbatim>\<open>round(x)\<close> on a float rounds to the nearest integer, a tie going to the even one.\<close>

definition py_round :: "real \<Rightarrow> int" where
  "py_round x =
     (let f = \<lfloor>x\<rfloor>; d = x - of_int f
      in if d < 1 / 2 then f
         else if 1 / 2 < d then f + 1
         else if even f then f else f + 1)"

text \<open>True division \<^verbatim>\<open>a / b\<close>: a zero divisor raises.\<close>

definition py_div :: "real \<Rightarrow> real \<Rightarrow> error + real" where
  "py_div a b = (if b = 0 then Inl ZeroDivisionError else Inr (a / b))"

text \<open>Sequencing of fallible steps: the first error ends the computation.\<close>

definition bind_err :: "error + 'a \<Rightarrow> ('a \<Rightarrow> error + 'b) \<Rightarrow> error + 'b" where
  "bind_err m f = (case m of Inl e \<Rightarrow> Inl e | Inr x \<Rightarrow> f x)"

section \<open>The hardware profile and the capture request\<close>

text \<open>The attributes \<^verbatim>\<open>Scope.setup\<close> sets on the session.\<close>

record profile =
  awg_clock_period :: real
  awg_wavetable_size :: int
  awg_sample_buffer_size :: int
  awg_minimum_clock :: int
  awg_maximum_voltage :: real
  analog_low_ks :: "real \<times> real \<times> real"
  analog_high_ks :: "real \<times> real \<times> real"
  analog_min :: real
  analog_max :: real
  capture_clock_period :: real
  capture_buffer_size :: int
  trigger_timeout_tick :: real
  trigger_low :: real
  trigger_high :: real

text \<open>The profile \<^verbatim>\<open>setup\<close> selects for a revision starting with \<^verbatim>\<open>BS0005\<close>.\<close>

definition BS0005 :: profile where
  "BS0005 = \<lparr>
     awg_clock_period = 25 / 10 ^ 9,
     awg_wavetable_size = 1024,
     awg_sample_buffer_size = 1024,
     awg_minimum_clock = 33,
     awg_maximum_voltage = 33 / 10,
     analog_low_ks = (0.43307040504672523, 0.060970272170312846, - 0.0037186072558476487),
     analog_high_ks = (0.37575241029061407, - 0.0039308497942329686, 0.060955881466731247),
     analog_min = - 57 / 10,
     analog_max = 8,
     capture_clock_period = 25 / 10 ^ 9,
     capture_buffer_size = 12 * 1024,
     trigger_timeout_tick = 64 / 10 ^ 7,
     trigger_low = - 7517 / 1000,
     trigger_high = 10816 / 1000 \<rparr>"

text \<open>The arguments of \<^verbatim>\<open>Scope.capture\<close>. A channel is its name.\<close>

record capture_request =
  channels :: "string list"
  trigger_channel :: "string option"
  trigger_level :: real
  trigger_type :: string
  period :: real
  nsamples :: int
  timeout :: "real option"
  low :: "real option"
  high :: "real option"
  raw :: bool

text \<open>The defaults of the signature of \<^verbatim>\<open>capture\<close>.\<close>

definition default_request :: capture_request where
  "default_request = \<lparr>
     channels = [''A''], trigger_channel = None, trigger_level = 0,
     trigger_type = ''rising'', period = 1 / 1000, nsamples = 1000, timeout = None,
     low = None, high = None, raw = False \<rparr>"

section \<open>Capture: the timing regime\<close>

text \<open>
  The enumerations \<^verbatim>\<open>vm.DumpMode\<close>, \<^verbatim>\<open>vm.TraceMode\<close> and
  \<^verbatim>\<open>vm.BufferMode\<close> are declared outside the source at hand; only the members
  \<^verbatim>\<open>capture\<close> names are listed.
\<close>

datatype DumpMode = DumpMode_Native | DumpMode_Raw

datatype TraceMode =
    TraceMode_Macro | TraceMode_MacroChop
  | TraceMode_Analog | TraceMode_AnalogChop
  | TraceMode_AnalogFast | TraceMode_AnalogFastChop
  | TraceMode_AnalogShot | TraceMode_AnalogShotChop

datatype BufferMode =
    BufferMode_Single | BufferMode_Chop | BufferMode_Macro | BufferMode_MacroChop

text \<open>Lines 64--67: both channels requested doubles the sample count.\<close>

definition both_channels :: "string list \<Rightarrow> bool" where
  "both_channels chs \<longleftrightarrow> ''A'' \<in> set chs \<and> ''B'' \<in> set chs"

definition nsamples_multiplier :: "string list \<Rightarrow> int" where
  "nsamples_multiplier chs = (if both_channels chs then 2 else 1)"

text \<open>
  Line 68: \<^verbatim>\<open>int(period / nsamples / nsamples_multiplier / capture_clock_period)\<close>,
  the divisions taken from left to right.
\<close>

definition capture_ticks :: "profile \<Rightarrow> capture_request \<Rightarrow> error + int" where
  "capture_ticks prof req =
     bind_err (py_div (period req) (of_int (nsamples req))) (\<lambda>q1.
     bind_err (py_div q1 (of_int (nsamples_multiplier (channels req)))) (\<lambda>q2.
     bind_err (py_div q2 (capture_clock_period prof)) (\<lambda>q3.
     Inr (py_int q3))))"

text \<open>The local variables that lines 69--112 fix; \<open>ticks\<close> is the value after line 101.\<close>

record regime =
  ticks :: int
  sample_width :: int
  buffer_width :: int
  dump_mode :: DumpMode
  trace_mode :: TraceMode
  buffer_mode :: BufferMode

definition select_regime :: "string list \<Rightarrow> int \<Rightarrow> error + regime" where
  "select_regime chs t =
     (if 40 \<le> t \<and> t < 65536 then
        Inr \<lparr> ticks = t, sample_width = 2, buffer_width = 6 * 1024,
              dump_mode = DumpMode_Native,
              trace_mode = (if both_channels chs then TraceMode_MacroChop else TraceMode_Macro),
              buffer_mode = (if both_channels chs then BufferMode_MacroChop else BufferMode_Macro) \<rparr>
      else if 15 \<le> t \<and> t < 40 then
        Inr \<lparr> ticks = t, sample_width = 1, buffer_width = 12 * 1024,
              dump_mode = DumpMode_Raw,
              trace_mode = (if both_channels chs then TraceMode_AnalogChop else TraceMode_Analog),
              buffer_mode = (if both_channels chs then BufferMode_Chop else BufferMode_Single) \<rparr>
      else if 8 \<le> t \<and> t < 15 then
        Inr \<lparr> ticks = t, sample_width = 1, buffer_width = 12 * 1024,
              dump_mode = DumpMode_Raw,
              trace_mode = (if both_channels chs then TraceMode_AnalogFastChop else TraceMode_AnalogFast),
              buffer_mode = (if both_channels chs then BufferMode_Chop else BufferMode_Single) \<rparr>
      else if 2 \<le> t \<and> t < 8 then
        Inr \<lparr> ticks = (if 5 < t then 5 else t), sample_width = 1, buffer_width = 12 * 1024,
              dump_mode = DumpMode_Raw,
              trace_mode = (if both_channels chs then TraceMode_AnalogShotChop else TraceMode_AnalogShot),
              buffer_mode = (if both_channels chs then BufferMode_Chop else BufferMode_Single) \<rparr>
      else Inl (Unsupported_clock_period t))"

text \<open>
  Lines 113--115: the sample count is recomputed from the effective tick count, and the
  assertion guards the buffer width. The tick count is at least 2 and the multiplier is
  1 or 2 here, and the clock period was a divisor on line 68, so no division can fail.
\<close>

definition recomputed_nsamples :: "profile \<Rightarrow> capture_request \<Rightarrow> int \<Rightarrow> int" where
  "recomputed_nsamples prof req t =
     py_round (period req / of_int t / of_int (nsamples_multiplier (channels req))
               / capture_clock_period prof)"

record sampling =
  sampling_regime :: regime
  sampling_nsamples :: int
  sampling_total :: int

definition capture_sampling :: "profile \<Rightarrow> capture_request \<Rightarrow> error + sampling" where
  "capture_sampling prof req =
     bind_err (capture_ticks prof req) (\<lambda>t.
     bind_err (select_regime (channels req) t) (\<lambda>rg.
       let n = recomputed_nsamples prof req (ticks rg);
           total_samples = n * nsamples_multiplier (channels req)
       in if total_samples \<le> buffer_width rg
          then Inr \<lparr> sampling_regime = rg, sampling_nsamples = n, sampling_total = total_samples \<rparr>
          else Inl AssertionError))"

section \<open>Capture: value range, trigger encoding and registers\<close>

text \<open>Lines 117--120: the value range defaults.\<close>

definition capture_low :: "profile \<Rightarrow> capture_request \<Rightarrow> real" where
  "capture_low prof req =
     (case low req of None \<Rightarrow> (if raw req then 0 else analog_min prof) | Some l \<Rightarrow> l)"

definition capture_high :: "profile \<Rightarrow> capture_request \<Rightarrow> real" where
  "capture_high prof req =
     (case high req of None \<Rightarrow> (if raw req then 1 else analog_max prof) | Some h \<Rightarrow> h)"

text \<open>
  Lines 122--125: without a trigger channel the first requested channel is taken
  (\<^verbatim>\<open>channels[0]\<close> raises on an empty list); a given one is asserted to be requested.
\<close>

definition capture_trigger_channel :: "capture_request \<Rightarrow> error + string" where
  "capture_trigger_channel req =
     (case trigger_channel req of
        None \<Rightarrow> (case channels req of [] \<Rightarrow> Inl IndexError | c # _ \<Rightarrow> Inr c)
      | Some c \<Rightarrow> if c \<in> set (channels req) then Inr c else Inl AssertionError)"

text \<open>
  The flag enumerations \<^verbatim>\<open>vm.SpockOption\<close>, \<^verbatim>\<open>vm.KitchenSinkA\<close> and
  \<^verbatim>\<open>vm.KitchenSinkB\<close> are declared outside the source at hand. A register value
  built with \<^verbatim>\<open>|\<close> is the set of the flags joined.
\<close>

datatype SpockOption =
  TriggerTypeHardwareComparator | TriggerSourceA | TriggerSourceB | TriggerInvert

datatype KitchenSinkA = ChannelAComparatorEnable | ChannelBComparatorEnable

datatype KitchenSinkB = AnalogFilterEnable | WaveformGeneratorEnable

text \<open>\<^verbatim>\<open>str.lower\<close>, on the ASCII letters.\<close>

definition lower_char :: "char \<Rightarrow> char" where
  "lower_char c =
     (case map_of (zip ''ABCDEFGHIJKLMNOPQRSTUVWXYZ'' ''abcdefghijklmnopqrstuvwxyz'') c of
        None \<Rightarrow> c | Some l \<Rightarrow> l)"

definition lower :: "string \<Rightarrow> string" where
  "lower s = map lower_char s"

text \<open>
  Lines 126--135. \<^verbatim>\<open>kitchen_sink_a\<close> is assigned only for the channels
  \<^verbatim>\<open>'A'\<close> and \<^verbatim>\<open>'B'\<close>: \<open>None\<close> is the unbound local.
\<close>

record trigger_encoding =
  spock_option :: "SpockOption set"
  kitchen_sink_a :: "KitchenSinkA option"
  trigger_intro :: int

definition encode_trigger :: "string \<Rightarrow> string \<Rightarrow> trigger_encoding" where
  "encode_trigger tc tt =
     (let so0 = {TriggerTypeHardwareComparator};
          (ksa, so1) =
            (if tc = ''A'' then (Some ChannelAComparatorEnable, so0 \<union> {TriggerSourceA})
             else if tc = ''B'' then (Some ChannelBComparatorEnable, so0 \<union> {TriggerSourceB})
             else (None, so0));
          so2 = (if lower tt \<in> {''falling'', ''below''} then so1 \<union> {TriggerInvert} else so1)
      in \<lparr> spock_option = so2, kitchen_sink_a = ksa,
            trigger_intro = (if lower tt \<in> {''above'', ''below''} then 0 else 4) \<rparr>)"

text \<open>Lines 136--137: the trigger level, normalised unless raw.\<close>

definition capture_trigger_level :: "profile \<Rightarrow> capture_request \<Rightarrow> error + real" where
  "capture_trigger_level prof req =
     (if raw req then Inr (trigger_level req)
      else py_div (trigger_level req - trigger_low prof) (trigger_high prof - trigger_low prof))"

text \<open>Lines 138--142.\<close>

definition analog_enable :: "string list \<Rightarrow> int" where
  "analog_enable chs =
     (let e0 = 0;
          e1 = (if ''A'' \<in> set chs then e0 OR 1 else e0);
          e2 = (if ''B'' \<in> set chs then e1 OR 2 else e1)
      in e2)"

text \<open>Lines 22--24.\<close>

definition analog_map_func :: "real \<times> real \<times> real \<Rightarrow> real \<Rightarrow> real \<Rightarrow> real" where
  "analog_map_func ks lo hi = (case ks of (k0, k1, k2) \<Rightarrow> k0 + k1 * lo + k2 * hi)"

text \<open>The keyword arguments of the \<^verbatim>\<open>set_registers\<close> call of lines 145--154.\<close>

record capture_registers =
  TraceMode :: TraceMode
  ClockTicks :: int
  ClockScale :: int
  TraceIntro :: int
  TraceOutro :: int
  TraceDelay :: int
  Timeout :: int
  TriggerMask :: int
  TriggerLogic :: int
  TriggerLevel :: real
  TriggerIntro :: int
  TriggerOutro :: int
  SpockOption :: "SpockOption set"
  Prelude :: int
  ConverterLo :: real
  ConverterHi :: real
  KitchenSinkA :: KitchenSinkA
  KitchenSinkB :: "KitchenSinkB set"
  AnalogEnable :: int
  BufferMode :: BufferMode
  SampleAddress :: int

text \<open>
  Everything \<^verbatim>\<open>capture\<close> computes before it talks to the device, in the order
  of the source: lines 64--154 up to the evaluation of the register values.
\<close>

record capture_plan =
  plan_sampling :: sampling
  plan_low :: real
  plan_high :: real
  plan_trigger_channel :: string
  plan_registers :: capture_registers

definition capture_timeout :: "profile \<Rightarrow> capture_request \<Rightarrow> error + int" where
  "capture_timeout prof req =
     bind_err (py_div (case timeout req of None \<Rightarrow> period req * 5 | Some t \<Rightarrow> t)
                      (trigger_timeout_tick prof))
       (\<lambda>q. Inr (py_round q))"

definition plan_capture :: "profile \<Rightarrow> capture_request \<Rightarrow> error + capture_plan" where
  "plan_capture prof req =
     bind_err (capture_sampling prof req) (\<lambda>sm.
     bind_err (capture_trigger_channel req) (\<lambda>tc.
     bind_err (capture_trigger_level prof req) (\<lambda>tl.
     bind_err (capture_timeout prof req) (\<lambda>tmo.
       let rg = sampling_regime sm;
           lo = capture_low prof req;
           hi = capture_high prof req;
           enc = encode_trigger tc (trigger_type req)
       in case kitchen_sink_a enc of
            None \<Rightarrow> Inl UnboundLocalError
          | Some ksa \<Rightarrow>
              Inr \<lparr> plan_sampling = sm, plan_low = lo, plan_high = hi,
                    plan_trigger_channel = tc,
                    plan_registers = \<lparr>
                      TraceMode = trace_mode rg, ClockTicks = ticks rg, ClockScale = 1,
                      TraceIntro = sampling_total sm div 2,
                      TraceOutro = sampling_total sm div 2, TraceDelay = 0,
                      Timeout = tmo, TriggerMask = 0x7f, TriggerLogic = 0x80,
                      TriggerLevel = tl, TriggerIntro = trigger_intro enc,
                      TriggerOutro = 4, SpockOption = spock_option enc, Prelude = 0,
                      ConverterLo =
                        (if raw req then lo else analog_map_func (analog_low_ks prof) lo hi),
                      ConverterHi =
                        (if raw req then hi else analog_map_func (analog_high_ks prof) lo hi),
                      KitchenSinkA = ksa,
                      KitchenSinkB = {AnalogFilterEnable, WaveformGeneratorEnable},
                      AnalogEnable = analog_enable (channels req),
                      BufferMode = buffer_mode rg, SampleAddress = 0 \<rparr> \<rparr>))))"

section \<open>Capture: the device dialogue and the decoder\<close>

type_synonym byte = "8 word"

text \<open>The keyword arguments of the \<^verbatim>\<open>set_registers\<close> call of lines 171--173.\<close>

record dump_registers =
  DumpSampleAddress :: int
  DumpMode :: DumpMode
  DumpChan :: nat
  DumpCount :: int
  DumpRepeat :: int
  DumpSend :: int
  DumpSkip :: int

text \<open>
  The command layer (\<^verbatim>\<open>vm.VirtualMachine\<close>) is outside the source at hand. A
  transaction is the list of what was set and issued inside one
  \<^verbatim>\<open>async with self.transaction()\<close> block.
\<close>

datatype command =
    Set_registers capture_registers
  | Set_dump_registers dump_registers
  | Program_spock_registers
  | Configure_device_hardware
  | Triggered_trace
  | Analog_dump_binary

text \<open>
  The device as \<^verbatim>\<open>capture\<close> sees it: the transactions issued so far, and what the
  device will answer. The replies are taken as the reply reader hands them over, the
  hexadecimal tokens already read as integers: the (code, timestamp) pairs of the trace,
  the address reply, and the sample bytes that follow.
\<close>

record device =
  issued :: "command list list"
  trace_replies :: "(int \<times> int) list"
  address_reply :: "int option"
  sample_bytes :: "byte list"

text \<open>
  Lines 158--166: replies are read until one has a code other than 2. With no such reply
  the loop never ends.
\<close>

fun wait_trace :: "(int \<times> int) list \<Rightarrow> error + (int \<times> int) list" where
  "wait_trace [] = Inl Awaits_forever"
| "wait_trace ((code, timestamp) # rs) = (if code = 2 then wait_trace rs else Inr rs)"

text \<open>
  \<^verbatim>\<open>SerialStream.readexactly\<close> (streams.py, lines 103--107) reads while
  \<^verbatim>\<open>len(data) < n\<close>, never asking for more than is missing. Its result does not
  depend on how the bytes arrive: nothing is read for \<open>n \<le> 0\<close>, otherwise it returns
  the first \<open>n\<close> bytes once the device has sent them, and stays suspended if it never
  does. The result is the data and the bytes left pending.
\<close>

definition readexactly :: "int \<Rightarrow> byte list \<Rightarrow> error + (byte list \<times> byte list)" where
  "readexactly n pending =
     (if n \<le> 0 then Inr ([], pending)
      else if int (length pending) < n then Inl Awaits_forever
      else Inr (take (nat n) pending, drop (nat n) pending))"

text \<open>
  \<^verbatim>\<open>struct.unpack('>{}h'.format(n), data)\<close>: \<open>n\<close> big-endian signed 16-bit
  values, the first byte of each being the high one and values from \<open>2 ^ 15\<close> on
  standing for the negative numbers. A negative count is no format, and the data must be
  \<open>2 * n\<close> bytes long.
\<close>

definition be_int16 :: "byte \<Rightarrow> byte \<Rightarrow> int" where
  "be_int16 hi lo =
     (let u = uint hi * 256 + uint lo in if u < 32768 then u else u - 65536)"

fun be_int16s :: "byte list \<Rightarrow> int list" where
  "be_int16s (hi # lo # rest) = be_int16 hi lo # be_int16s rest"
| "be_int16s _ = []"

definition unpack_be_h :: "int \<Rightarrow> byte list \<Rightarrow> error + int list" where
  "unpack_be_h n data =
     (if n < 0 \<or> int (length data) \<noteq> 2 * n then Inl StructError else Inr (be_int16s data))"

text \<open>Lines 177--186, one sample: the normalised value, mapped into the range unless raw.\<close>

definition decode_sample2 :: "bool \<Rightarrow> real \<Rightarrow> real \<Rightarrow> int \<Rightarrow> real" where
  "decode_sample2 rw lo hi v =
     (if rw then of_int v / 65536 + 1 / 2
      else (of_int v / 65536 + 1 / 2) * (hi - lo) + lo)"

definition decode_sample1 :: "bool \<Rightarrow> real \<Rightarrow> real \<Rightarrow> byte \<Rightarrow> real" where
  "decode_sample1 rw lo hi b =
     (if rw then of_int (uint b) / 256
      else of_int (uint b) / 256 * (hi - lo) + lo)"

definition decode_trace ::
  "int \<Rightarrow> bool \<Rightarrow> real \<Rightarrow> real \<Rightarrow> int \<Rightarrow> byte list \<Rightarrow> error + real list" where
  "decode_trace sw rw lo hi n data =
     (if sw = 2 then bind_err (unpack_be_h n data) (\<lambda>vs. Inr (map (decode_sample2 rw lo hi) vs))
      else Inr (map (decode_sample1 rw lo hi) data))"

text \<open>Lines 169--187: one dump per requested channel, in the order of the sorted names.\<close>

fun dump_channels ::
  "capture_plan \<Rightarrow> capture_request \<Rightarrow> int \<Rightarrow> (nat \<times> string) list \<Rightarrow> device \<Rightarrow>
   (string \<rightharpoonup> real list) \<Rightarrow> (error + (string \<rightharpoonup> real list)) \<times> device" where
  "dump_channels pl req address [] dev traces = (Inr traces, dev)"
| "dump_channels pl req address ((dump_channel, channel) # rest) dev traces =
     (let sm = plan_sampling pl; rg = sampling_regime sm; n = sampling_nsamples sm;
          dev1 = dev\<lparr> issued := issued dev @
            [[Set_dump_registers \<lparr>
                DumpSampleAddress =
                  (address - n) * nsamples_multiplier (channels req) mod buffer_width rg,
                DumpMode = dump_mode rg, DumpChan = dump_channel,
                DumpCount = n, DumpRepeat = 1, DumpSend = 1, DumpSkip = 0 \<rparr>,
              Program_spock_registers, Analog_dump_binary]] \<rparr>
      in case readexactly (n * sample_width rg) (sample_bytes dev1) of
           Inl e \<Rightarrow> (Inl e, dev1)
         | Inr (data, pending) \<Rightarrow>
             (case decode_trace (sample_width rg) (raw req) (plan_low pl) (plan_high pl) n data of
                Inl e \<Rightarrow> (Inl e, dev1\<lparr> sample_bytes := pending \<rparr>)
              | Inr trace \<Rightarrow>
                  dump_channels pl req address rest (dev1\<lparr> sample_bytes := pending \<rparr>)
                    (traces(channel \<mapsto> trace))))"

text \<open>
  \<^verbatim>\<open>Scope.capture\<close>, lines 62--188: the plan, the first transaction, the wait for
  the trace, the address, and the dumps. An error of the plan leaves the device untouched.
\<close>

definition capture ::
  "profile \<Rightarrow> capture_request \<Rightarrow> device \<Rightarrow> (error + (string \<rightharpoonup> real list)) \<times> device" where
  "capture prof req dev =
     (case plan_capture prof req of
        Inl e \<Rightarrow> (Inl e, dev)
      | Inr pl \<Rightarrow>
          (let dev1 = dev\<lparr> issued := issued dev @
                 [[Set_registers (plan_registers pl), Program_spock_registers,
                   Configure_device_hardware, Triggered_trace]] \<rparr>
           in case wait_trace (trace_replies dev1) of
                Inl e \<Rightarrow> (Inl e, dev1\<lparr> trace_replies := [] \<rparr>)
              | Inr rs \<Rightarrow>
                  (case address_reply dev1 of
                     None \<Rightarrow> (Inl Awaits_forever, dev1\<lparr> trace_replies := rs \<rparr>)
                   | Some a \<Rightarrow>
                       dump_channels pl req (a div nsamples_multiplier (channels req))
                         (enumerate 0 (sort (channels req)))
                         (dev1\<lparr> trace_replies := rs, address_reply := None \<rparr>) Map.empty)))"

section \<open>The waveform generator\<close>

text \<open>The arguments of \<^verbatim>\<open>Scope.start_generator\<close>. A wavetable is its samples.\<close>

record generator_request =
  frequency :: real
  waveform :: string
  wavetable :: "byte list option"
  ratio :: real
  vpp :: "real option"
  offset :: real
  min_samples :: int
  max_error :: real

text \<open>The defaults of the signature, for a frequency of 1000.\<close>

definition default_generator_request :: generator_request where
  "default_generator_request = \<lparr>
     frequency = 1000, waveform = ''sine'', wavetable = None, ratio = 1 / 2, vpp = None,
     offset = 0, min_samples = 50, max_error = 1 / 10 ^ 4 \<rparr>"




text \<open>
  Lines 204--205: the entry appended for a plan whose error is below the threshold, the
  sort key first.
\<close>

type_synonym params = "(bool \<times> real) \<times> (int \<times> int \<times> int \<times> real)"








section \<open>The persisted calibration\<close>

text \<open>
  The EEPROM is a byte-addressable store behind \<^verbatim>\<open>read_eeprom\<close> and
  \<^verbatim>\<open>write_eeprom\<close> (lines 246--256), whose commands and replies belong to the
  command layer outside the source at hand: a read gives the byte stored at the address,
  a write stores one.
\<close>

type_synonym eeprom = "nat \<Rightarrow> byte"

text \<open>
  The conversion behind the format character \<^verbatim>\<open>f\<close> of \<^verbatim>\<open>struct\<close> is a
  parameter: \<open>f32_pack\<close> gives the IEEE binary32 bits of the nearest single-precision
  value, or \<open>None\<close> where \<^verbatim>\<open>struct.pack\<close> raises \<^verbatim>\<open>OverflowError\<close>, and
  \<open>f32_unpack\<close> gives the value of the bits.
\<close>

record float_codec =
  f32_pack :: "real \<Rightarrow> 32 word option"
  f32_unpack :: "32 word \<Rightarrow> real"

text \<open>Line 11.\<close>

definition PARAMS_MAGIC :: "16 word" where
  "PARAMS_MAGIC = 0xb0b2"

text \<open>The little-endian bytes of the format \<^verbatim>\<open><\<close>, the low byte first.\<close>

definition le16 :: "16 word \<Rightarrow> byte list" where
  "le16 w = [ucast w, ucast (drop_bit 8 w)]"

definition le32 :: "32 word \<Rightarrow> byte list" where
  "le32 w = [ucast w, ucast (drop_bit 8 w), ucast (drop_bit 16 w), ucast (drop_bit 24 w)]"

definition of_le16 :: "byte \<Rightarrow> byte \<Rightarrow> 16 word" where
  "of_le16 b0 b1 = ucast b0 OR push_bit 8 (ucast b1)"

definition of_le32 :: "byte \<Rightarrow> byte \<Rightarrow> byte \<Rightarrow> byte \<Rightarrow> 32 word" where
  "of_le32 b0 b1 b2 b3 =
     ucast b0 OR push_bit 8 (ucast b1) OR push_bit 16 (ucast b2) OR push_bit 24 (ucast b3)"

fun of_le32s :: "byte list \<Rightarrow> 32 word list" where
  "of_le32s (b0 # b1 # b2 # b3 # rest) = of_le32 b0 b1 b2 b3 # of_le32s rest"
| "of_le32s _ = []"

text \<open>
  \<^verbatim>\<open>struct.pack('<H3f3f', magic, *ks)\<close>: six floats are required, and the result
  is 26 bytes with no padding.
\<close>

definition pack_params :: "float_codec \<Rightarrow> 16 word \<Rightarrow> real list \<Rightarrow> error + byte list" where
  "pack_params codec magic ks =
     (if length ks \<noteq> 6 then Inl StructError
      else case those (map (f32_pack codec) ks) of
             None \<Rightarrow> Inl OverflowError
           | Some ws \<Rightarrow> Inr (le16 magic @ concat (map le32 ws)))"

text \<open>\<^verbatim>\<open>struct.unpack('<H3f3f', data)\<close>: the data must be 26 bytes.\<close>

definition unpack_params :: "float_codec \<Rightarrow> byte list \<Rightarrow> error + (16 word \<times> real list)" where
  "unpack_params codec data =
     (case data of
        b0 # b1 # rest \<Rightarrow>
          if length rest = 24 then Inr (of_le16 b0 b1, map (f32_unpack codec) (of_le32s rest))
          else Inl StructError
      | _ \<Rightarrow> Inl StructError)"

text \<open>
  \<^verbatim>\<open>Scope.load_params\<close>, lines 47--55: 26 bytes are read from address 100 on, and
  the coefficients are replaced only under the magic number.
\<close>

definition load_params :: "float_codec \<Rightarrow> profile \<Rightarrow> eeprom \<Rightarrow> error + profile" where
  "load_params codec prof rom =
     (let params = map (\<lambda>i. rom (i + 100)) [0..<26]
      in bind_err (unpack_params codec params) (\<lambda>(magic, fs).
           if magic = PARAMS_MAGIC then
             (case fs of
                [l0, l1, l2, h0, h1, h2] \<Rightarrow>
                  Inr (prof\<lparr> analog_low_ks := (l0, l1, l2), analog_high_ks := (h0, h1, h2) \<rparr>)
              | _ \<Rightarrow> Inl StructError)
           else Inr prof))"

text \<open>
  \<^verbatim>\<open>Scope.save_params\<close>, lines 57--60: the record is packed first, then written
  byte by byte from address 100 on.
\<close>

fun write_eeprom_bytes :: "nat \<Rightarrow> byte list \<Rightarrow> eeprom \<Rightarrow> eeprom" where
  "write_eeprom_bytes i [] rom = rom"
| "write_eeprom_bytes i (b # bs) rom = write_eeprom_bytes (Suc i) bs (rom(i + 100 := b))"

definition save_params :: "float_codec \<Rightarrow> profile \<Rightarrow> eeprom \<Rightarrow> error + eeprom" where
  "save_params codec prof rom =
     (case (analog_low_ks prof, analog_high_ks prof) of
        ((l0, l1, l2), (h0, h1, h2)) \<Rightarrow>
          bind_err (pack_params codec PARAMS_MAGIC [l0, l1, l2, h0, h1, h2]) (\<lambda>params.
            Inr (write_eeprom_bytes 0 params rom)))"

section \<open>The serial stream\<close>

text \<open>
  The output side of \<^verbatim>\<open>SerialStream\<close> (streams.py). The future
  \<^verbatim>\<open>_output_buffer_empty\<close> is absent (\<open>None\<close>), pending, or failed (its exception
  was set); \<open>writer\<close> says whether \<^verbatim>\<open>_feed_data\<close> is registered with the loop; and
  \<open>delivered\<close> are the bytes the connection has accepted so far, in order.
\<close>

datatype future = Pending | Failed

record serial_stream =
  output_buffer :: "byte list"
  output_buffer_empty :: "future option"
  writer :: bool
  delivered :: "byte list"

text \<open>The stream after \<^verbatim>\<open>__init__\<close>, lines 33--39.\<close>

definition new_stream :: serial_stream where
  "new_stream = \<lparr> output_buffer = [], output_buffer_empty = None, writer = False,
                   delivered = [] \<rparr>"

text \<open>
  How the connection answers one \<^verbatim>\<open>self._connection.write(data)\<close>: it accepts up
  to some number of bytes and returns how many it took, or raises
  \<^verbatim>\<open>SerialTimeoutException\<close>, or raises another exception.
\<close>

datatype attempt = Accepts nat | Times_out | Breaks

text \<open>
  The number \<open>n\<close> of lines 51--54 and 72--75, the timeout counting as no byte written;
  \<open>None\<close> when another exception is raised.
\<close>

definition written_count :: "attempt \<Rightarrow> byte list \<Rightarrow> nat option" where
  "written_count att data =
     (case att of
        Accepts k \<Rightarrow> Some (min k (length data))
      | Times_out \<Rightarrow> Some 0
      | Breaks \<Rightarrow> None)"

text \<open>
  \<^verbatim>\<open>SerialStream.write\<close>, lines 49--65. The attempt is the answer of the connection
  if it is asked, which it is only with an empty output buffer.
\<close>

definition stream_write :: "attempt \<Rightarrow> byte list \<Rightarrow> serial_stream \<Rightarrow> error + serial_stream" where
  "stream_write att data st =
     bind_err
       (if output_buffer st = [] then
          (case written_count att data of
             None \<Rightarrow> Inl SerialException
           | Some n \<Rightarrow>
               Inr (st\<lparr> delivered := delivered st @ take n data, output_buffer := drop n data \<rparr>))
        else Inr (st\<lparr> output_buffer := output_buffer st @ data \<rparr>))
       (\<lambda>st1.
          if output_buffer st1 \<noteq> [] \<and> output_buffer_empty st1 = None
          then Inr (st1\<lparr> output_buffer_empty := Some Pending, writer := True \<rparr>)
          else Inr st1)"

text \<open>
  \<^verbatim>\<open>SerialStream._feed_data\<close>, lines 71--86, the callback the loop runs when the
  connection can be written to. After another exception the exception of the future is
  set and the writer removed; line 80 then reads \<^verbatim>\<open>n\<close>, which was never assigned,
  and the callback ends there.
\<close>

definition feed_data :: "attempt \<Rightarrow> serial_stream \<Rightarrow> serial_stream" where
  "feed_data att st =
     (case written_count att (output_buffer st) of
        None \<Rightarrow> st\<lparr> output_buffer_empty := Some Failed, writer := False \<rparr>
      | Some n \<Rightarrow>
          (let st1 = (if n \<noteq> 0
                      then st\<lparr> delivered := delivered st @ take n (output_buffer st),
                              output_buffer := drop n (output_buffer st) \<rparr>
                      else st)
           in if output_buffer st1 = []
              then st1\<lparr> writer := False, output_buffer_empty := None \<rparr>
              else st1))"

text \<open>
  \<^verbatim>\<open>SerialStream.drain\<close>, lines 67--69, with the loop that runs meanwhile. Without a
  future it returns at once. Otherwise it awaits the future: the loop runs the writer,
  once for each answer of the connection in the list, until the future is done; a failed
  future raises its exception. The result is the stream and the answers not used. When
  the answers run out before the future is done, \<^verbatim>\<open>drain\<close> is still suspended.
\<close>

fun drain :: "attempt list \<Rightarrow> serial_stream \<Rightarrow> error + (serial_stream \<times> attempt list)" where
  "drain [] st =
     (case output_buffer_empty st of
        None \<Rightarrow> Inr (st, [])
      | Some Failed \<Rightarrow> Inl SerialException
      | Some Pending \<Rightarrow> Inl Awaits_forever)"
| "drain (att # atts) st =
     (case output_buffer_empty st of
        None \<Rightarrow> Inr (st, att # atts)
      | Some Failed \<Rightarrow> Inl SerialException
      | Some Pending \<Rightarrow>
          if writer st then drain atts (feed_data att st) else Inl Awaits_forever)"

text \<open>
  What happens to a stream before \<^verbatim>\<open>drain\<close>: calls of \<^verbatim>\<open>write\<close>, and in
  between them turns of the loop in which the connection can be written to, where the
  writer runs if it is registered.
\<close>

datatype call = Write "byte list" attempt | Ready attempt

fun run :: "call list \<Rightarrow> serial_stream \<Rightarrow> error + serial_stream" where
  "run [] st = Inr st"
| "run (Write data att # calls) st = bind_err (stream_write att data st) (run calls)"
| "run (Ready att # calls) st = run calls (if writer st then feed_data att st else st)"

text \<open>The bytes of the \<^verbatim>\<open>write\<close> calls, in the order of the calls.\<close>

fun written :: "call list \<Rightarrow> byte list" where
  "written [] = []"
| "written (Write data att # calls) = data @ written calls"
| "written (Ready att # calls) = written calls"

text \<open>
  What holds of a stream between calls: there is a future exactly while the output
  buffer holds bytes, and the writer is registered exactly while the future is pending.
\<close>

definition stream_inv :: "serial_stream \<Rightarrow> bool" where
  "stream_inv st \<longleftrightarrow>
     (output_buffer_empty st = None \<longleftrightarrow> output_buffer st = [])
   \<and> (writer st \<longleftrightarrow> output_buffer_empty st = Some Pending)"

section \<open>Sample requests and devices\<close>





text \<open>A device that has answered nothing yet.\<close>

definition silent_device :: device where
  "silent_device = \<lparr> issued = [], trace_replies = [], address_reply = None, sample_bytes = [] \<rparr>"

text \<open>The default request with a trigger channel that is not requested.\<close>

definition stray_trigger_request :: capture_request where
  "stray_trigger_request = default_request\<lparr> trigger_channel := Some ''B'' \<rparr>"







text \<open>A generator request for 1 MHz: no clock divisor is in the searched range.\<close>

definition rapid_generator_request :: generator_request where
  "rapid_generator_request = default_generator_request\<lparr> frequency := 1000000 \<rparr>"

text \<open>
  The binary32 bits of four values, as a conversion that knows these values only, and a
  profile whose coefficients are among them.
\<close>

definition sample_codec :: float_codec where
  "sample_codec = \<lparr>
     f32_pack = map_of [(0, 0x00000000), (1 / 2, 0x3F000000), (1, 0x3F800000), (- 2, 0xC0000000)],
     f32_unpack = (\<lambda>w. case map_of [(0x00000000, 0), (0x3F000000, 1 / 2), (0x3F800000, 1),
                                       (0xC0000000, - 2)] w of
                          None \<Rightarrow> 0 | Some x \<Rightarrow> x) \<rparr>"

definition sample_profile :: profile where
  "sample_profile = BS0005\<lparr> analog_low_ks := (1 / 2, 1, 0), analog_high_ks := (- 2, 0, 1) \<rparr>"

text \<open>An erased EEPROM: every byte is \<open>0xFF\<close>.\<close>

definition erased_eeprom :: eeprom where
  "erased_eeprom = (\<lambda>a. 0xFF)"

text \<open>
  Two writes, of five and of two bytes, to a connection that takes three bytes at a time.
\<close>

definition sample_calls :: "call list" where
  "sample_calls = [Write [1, 2, 3, 4, 5] (Accepts 3), Write [6, 7] (Accepts 3)]"

text \<open>
  A request for both channels, triggered on a falling edge of channel \<^verbatim>\<open>'B'\<close>.
\<close>

definition falling_request :: capture_request where
  "falling_request = default_request\<lparr> channels := [''A'', ''B''],
     trigger_channel := Some ''B'', trigger_type := ''Falling'' \<rparr>"

section \<open>Capture: ticks, regimes and the sample count\<close>

lemmas plan_defs =
  plan_capture_def capture_sampling_def capture_ticks_def BS0005_def default_request_def
  py_div_def bind_err_def nsamples_multiplier_def both_channels_def py_int_def
  select_regime_def recomputed_nsamples_def py_round_def Let_def capture_trigger_channel_def
  capture_trigger_level_def capture_timeout_def encode_trigger_def lower_def lower_char_def
  capture_low_def capture_high_def analog_map_func_def analog_enable_def






















lemma default_plan: "\<exists>pl. plan_capture BS0005 default_request = Inr pl"
  by (simp add: plan_defs)













section \<open>Capture: the trigger encoding\<close>

lemma lower_types:
  "lower ''rising'' = ''rising''" "lower ''falling'' = ''falling''"
  "lower ''above'' = ''above''" "lower ''below'' = ''below''"
  by (simp_all add: lower_def lower_char_def)

lemma encode_trigger_invert:
  "TriggerInvert \<in> spock_option (encode_trigger tc tt) \<longleftrightarrow> lower tt \<in> {''falling'', ''below''}"
  by (simp add: encode_trigger_def Let_def)

lemma encode_trigger_intro:
  "trigger_intro (encode_trigger tc tt) = (if lower tt \<in> {''above'', ''below''} then 0 else 4)"
  by (simp add: encode_trigger_def Let_def split: prod.splits)

lemma plan_capture_trigger:
  "plan_capture prof req = Inr pl \<Longrightarrow>
     capture_trigger_channel req = Inr (plan_trigger_channel pl)
   \<and> SpockOption (plan_registers pl)
       = spock_option (encode_trigger (plan_trigger_channel pl) (trigger_type req))
   \<and> TriggerIntro (plan_registers pl)
       = trigger_intro (encode_trigger (plan_trigger_channel pl) (trigger_type req))"
  by (auto simp: plan_capture_def bind_err_def Let_def split: sum.splits option.splits)

lemma plan_capture_trigger_error:
  "capture_trigger_channel req = Inl e \<Longrightarrow> \<exists>e'. plan_capture prof req = Inl e'"
  by (auto simp: plan_capture_def bind_err_def split: sum.splits)

lemma capture_plan_error:
  "plan_capture prof req = Inl e \<Longrightarrow> capture prof req dev = (Inl e, dev)"
  by (simp add: capture_def)

text \<open>
  Claim C8. Without a trigger channel, \<^verbatim>\<open>capture\<close> takes the first requested
  channel; a trigger channel that is given must be among the requested ones, or the
  assertion of line 125 fails and \<^verbatim>\<open>capture\<close> ends in an error with the device
  as it was. The flag \<^verbatim>\<open>TriggerInvert\<close> is joined to the option register exactly
  when the lower-cased trigger type is \<^verbatim>\<open>falling\<close> or \<^verbatim>\<open>below\<close>. The
  intro count is 4 for \<^verbatim>\<open>rising\<close> and \<^verbatim>\<open>falling\<close> and 0 for
  \<^verbatim>\<open>above\<close> and \<^verbatim>\<open>below\<close>. These are the values the registers
  \<^verbatim>\<open>SpockOption\<close> and \<^verbatim>\<open>TriggerIntro\<close> are set to.
\<close>

theorem C8_trigger_encoding:
  "(trigger_channel req = None \<and> channels req = c # cs \<longrightarrow> capture_trigger_channel req = Inr c)
   \<and> (trigger_channel req = Some tc \<and> tc \<in> set (channels req) \<longrightarrow>
        capture_trigger_channel req = Inr tc)
   \<and> (trigger_channel req = Some tc \<and> tc \<notin> set (channels req) \<longrightarrow>
        capture_trigger_channel req = Inl AssertionError
      \<and> (\<exists>e. capture prof req dev = (Inl e, dev)))
   \<and> (TriggerInvert \<in> spock_option (encode_trigger ch tt)
        \<longleftrightarrow> lower tt = ''falling'' \<or> lower tt = ''below'')
   \<and> TriggerInvert \<in> spock_option (encode_trigger ch ''falling'')
   \<and> TriggerInvert \<in> spock_option (encode_trigger ch ''below'')
   \<and> TriggerInvert \<notin> spock_option (encode_trigger ch ''rising'')
   \<and> TriggerInvert \<notin> spock_option (encode_trigger ch ''above'')
   \<and> trigger_intro (encode_trigger ch ''rising'') = 4
   \<and> trigger_intro (encode_trigger ch ''falling'') = 4
   \<and> trigger_intro (encode_trigger ch ''above'') = 0
   \<and> trigger_intro (encode_trigger ch ''below'') = 0
   \<and> (\<forall>pl. plan_capture prof req = Inr pl \<longrightarrow>
         capture_trigger_channel req = Inr (plan_trigger_channel pl)
       \<and> SpockOption (plan_registers pl)
           = spock_option (encode_trigger (plan_trigger_channel pl) (trigger_type req))
       \<and> TriggerIntro (plan_registers pl)
           = trigger_intro (encode_trigger (plan_trigger_channel pl) (trigger_type req)))"
proof -
  have stray: "capture_trigger_channel req = Inl AssertionError
      \<and> (\<exists>e. capture prof req dev = (Inl e, dev))"
    if "trigger_channel req = Some tc" and "tc \<notin> set (channels req)"
  proof -
    from that have "capture_trigger_channel req = Inl AssertionError"
      by (simp add: capture_trigger_channel_def)
    with plan_capture_trigger_error [OF this, of prof] capture_plan_error [of prof req _ dev]
    show ?thesis by blast
  qed
  have given: "capture_trigger_channel req = Inr tc"
    if "trigger_channel req = Some tc" and "tc \<in> set (channels req)"
    using that by (simp add: capture_trigger_channel_def)
  have dflt: "capture_trigger_channel req = Inr c"
    if "trigger_channel req = None" and "channels req = c # cs"
    using that by (simp add: capture_trigger_channel_def)
  have inv: "TriggerInvert \<in> spock_option (encode_trigger ch t)
        \<longleftrightarrow> lower t = ''falling'' \<or> lower t = ''below''" for t
    using encode_trigger_invert [of ch t] by simp
  have intro: "trigger_intro (encode_trigger ch ''rising'') = 4"
    "trigger_intro (encode_trigger ch ''falling'') = 4"
    "trigger_intro (encode_trigger ch ''above'') = 0"
    "trigger_intro (encode_trigger ch ''below'') = 0"
    by (simp_all add: encode_trigger_intro lower_types)
  have types: "TriggerInvert \<in> spock_option (encode_trigger ch ''falling'')"
    "TriggerInvert \<in> spock_option (encode_trigger ch ''below'')"
    "TriggerInvert \<notin> spock_option (encode_trigger ch ''rising'')"
    "TriggerInvert \<notin> spock_option (encode_trigger ch ''above'')"
    by (simp_all add: inv lower_types)
  from stray given dflt inv [of tt] intro types plan_capture_trigger [of prof req]
  show ?thesis by blast
qed

lemma stray_capture:
  "capture BS0005 stray_trigger_request silent_device = (Inl AssertionError, silent_device)"
  by (simp add: stray_trigger_request_def capture_def plan_defs)

lemma falling_plan: "\<exists>pl. plan_capture BS0005 falling_request = Inr pl"
  by (simp add: falling_request_def plan_defs)

theorem C8_trigger_encoding_witness:
  "capture_trigger_channel default_request = Inr ''A''
   \<and> capture_trigger_channel stray_trigger_request = Inl AssertionError
   \<and> capture BS0005 stray_trigger_request silent_device = (Inl AssertionError, silent_device)
   \<and> (\<exists>pl. plan_capture BS0005 default_request = Inr pl
        \<and> plan_trigger_channel pl = ''A''
        \<and> TriggerInvert \<notin> SpockOption (plan_registers pl)
        \<and> TriggerIntro (plan_registers pl) = 4)
   \<and> capture_trigger_channel falling_request = Inr ''B''
   \<and> (\<exists>pl. plan_capture BS0005 falling_request = Inr pl
        \<and> plan_trigger_channel pl = ''B''
        \<and> TriggerInvert \<in> SpockOption (plan_registers pl)
        \<and> TriggerIntro (plan_registers pl) = 4)"
proof -
  from default_plan obtain pl where pl: "plan_capture BS0005 default_request = Inr pl" ..
  from falling_plan obtain pf where pf: "plan_capture BS0005 falling_request = Inr pf" ..
  note d = C8_trigger_encoding [of default_request "''A''" "[]" "''A''" BS0005 silent_device
      "plan_trigger_channel pl" "''rising''"]
  note s = C8_trigger_encoding [of stray_trigger_request "''A''" "[]" "''B''" BS0005 silent_device
      "''A''" "''rising''"]
  note f = C8_trigger_encoding [of falling_request "''A''" "[''B'']" "''B''" BS0005 silent_device
      "plan_trigger_channel pf" "''Falling''"]
  have 1: "capture_trigger_channel default_request = Inr ''A''"
    using d by (simp add: default_request_def)
  have 2: "capture_trigger_channel stray_trigger_request = Inl AssertionError"
    using s by (simp add: stray_trigger_request_def default_request_def)
  have 3: "plan_trigger_channel pl = ''A''" using d pl 1 by simp
  have tt: "trigger_type default_request = ''rising''" by (simp add: default_request_def)
  have 4: "TriggerInvert \<notin> SpockOption (plan_registers pl)"
    using d pl tt by (simp add: lower_types)
  have 5: "TriggerIntro (plan_registers pl) = 4" using d pl tt by simp
  have 6: "capture_trigger_channel falling_request = Inr ''B''"
    using f by (simp add: falling_request_def default_request_def)
  have 7: "plan_trigger_channel pf = ''B''" using f pf 6 by simp
  have tf: "trigger_type falling_request = ''Falling''"
    by (simp add: falling_request_def default_request_def)
  have lf: "lower ''Falling'' = ''falling''" by (simp add: lower_def lower_char_def)
  have 8: "TriggerInvert \<in> SpockOption (plan_registers pf)"
    using f pf tf by (simp add: lf)
  have 9: "TriggerIntro (plan_registers pf) = 4"
    using f pf tf by (simp add: encode_trigger_intro lf)
  from 1 2 3 4 5 6 7 8 9 pl pf stray_capture show ?thesis by blast
qed

section \<open>Capture: the decoder\<close>




section \<open>Capture: the returned traces\<close>



















section \<open>The waveform generator: the search\<close>

lemma bind_err_Inr: "bind_err (Inr x) f = f x"
  by (simp add: bind_err_def)




























lemma rapid_request:
  "frequency rapid_generator_request = 1000000" "min_samples rapid_generator_request = 50"
  by (simp_all add: rapid_generator_request_def default_generator_request_def)








section \<open>The waveform generator: the selection\<close>









section \<open>The persisted calibration: save and load\<close>

lemma of_le16_le16: "of_le16 (ucast w) (ucast (drop_bit 8 w)) = (w :: 16 word)"
  unfolding of_le16_def
  by (rule bit_word_eqI) (auto simp: bit_simps)

lemma of_le32_le32:
  "of_le32 (ucast w) (ucast (drop_bit 8 w)) (ucast (drop_bit 16 w)) (ucast (drop_bit 24 w))
     = (w :: 32 word)"
  unfolding of_le32_def
proof (rule bit_word_eqI)
  fix n :: nat
  assume "n < LENGTH(32)"
  then have n: "n < 32" by simp
  consider "n < 8" | "8 \<le> n" "n < 16" | "16 \<le> n" "n < 24" | "24 \<le> n"
    by linarith
  then show "bit (ucast (ucast w :: byte) OR push_bit 8 (ucast (ucast (drop_bit 8 w) :: byte))
        OR push_bit 16 (ucast (ucast (drop_bit 16 w) :: byte))
        OR push_bit 24 (ucast (ucast (drop_bit 24 w) :: byte)) :: 32 word) n = bit w n"
    using n by cases (auto simp: bit_simps)
qed

lemma of_le32s_le32: "of_le32s (le32 w @ rest) = w # of_le32s rest"
  by (simp add: le32_def of_le32_le32)

lemma of_le32s_concat: "of_le32s (concat (map le32 ws)) = ws"
  by (induction ws) (simp_all add: of_le32s_le32)

lemma length_concat_le32: "length (concat (map le32 ws)) = 4 * length ws"
  by (induction ws) (simp_all add: le32_def)

lemma unpack_pack:
  "length ws = 6 \<Longrightarrow>
     unpack_params codec (le16 magic @ concat (map le32 ws))
       = Inr (magic, map (f32_unpack codec) ws)"
  by (simp add: unpack_params_def le16_def of_le16_le16 length_concat_le32 of_le32s_concat)

lemma of_le16_magic: "of_le16 b0 b1 = PARAMS_MAGIC \<longleftrightarrow> b0 = 0xB2 \<and> b1 = 0xB0"
proof
  assume eq: "of_le16 b0 b1 = PARAMS_MAGIC"
  have "b0 = ucast (of_le16 b0 b1)"
    unfolding of_le16_def by (rule bit_word_eqI) (auto simp: bit_simps)
  moreover have "b1 = ucast (drop_bit 8 (of_le16 b0 b1))"
    unfolding of_le16_def by (rule bit_word_eqI) (auto simp: bit_simps dest: bit_imp_le_length)
  ultimately show "b0 = 0xB2 \<and> b1 = 0xB0"
    unfolding eq by (simp add: PARAMS_MAGIC_def)
next
  assume "b0 = 0xB2 \<and> b1 = 0xB0"
  then show "of_le16 b0 b1 = PARAMS_MAGIC"
    by (simp add: of_le16_def PARAMS_MAGIC_def)
qed

lemma write_eeprom_bytes_read:
  "write_eeprom_bytes i bs rom (j + 100)
     = (if i \<le> j \<and> j < i + length bs then bs ! (j - i) else rom (j + 100))"
proof (induction bs arbitrary: i rom)
  case Nil
  then show ?case by auto
next
  case (Cons b bs)
  show ?case
    by (auto simp: Cons.IH nth_Cons' Suc_diff_le)
qed

lemma read_written:
  "map (\<lambda>j. write_eeprom_bytes 0 bs rom (j + 100)) [0..<length bs] = bs"
  by (rule nth_equalityI) (simp_all add: write_eeprom_bytes_read)

lemma those_six:
  "those (map f [a, b, c, d, e, g]) = Some ws \<longleftrightarrow>
     (\<exists>wa wb wc wd we wg. f a = Some wa \<and> f b = Some wb \<and> f c = Some wc \<and> f d = Some wd
        \<and> f e = Some we \<and> f g = Some wg \<and> ws = [wa, wb, wc, wd, we, wg])"
  by (auto split: option.splits)

lemma pack_params_Inr:
  "pack_params codec magic [a, b, c, d, e, g] = Inr bs \<longleftrightarrow>
     (\<exists>ws. those (map (f32_pack codec) [a, b, c, d, e, g]) = Some ws
        \<and> bs = le16 magic @ concat (map le32 ws))"
  by (auto simp: pack_params_def split: option.splits)

lemma save_params_Inr:
  assumes "save_params codec prof rom = Inr rom'"
  shows "\<exists>l0 l1 l2 h0 h1 h2 ws.
           analog_low_ks prof = (l0, l1, l2) \<and> analog_high_ks prof = (h0, h1, h2)
         \<and> those (map (f32_pack codec) [l0, l1, l2, h0, h1, h2]) = Some ws
         \<and> rom' = write_eeprom_bytes 0 (le16 PARAMS_MAGIC @ concat (map le32 ws)) rom"
proof -
  obtain l0 l1 l2 h0 h1 h2 where ks: "analog_low_ks prof = (l0, l1, l2)"
    "analog_high_ks prof = (h0, h1, h2)"
    by (metis prod_cases3)
  with assms obtain bs where "pack_params codec PARAMS_MAGIC [l0, l1, l2, h0, h1, h2] = Inr bs"
    and "rom' = write_eeprom_bytes 0 bs rom"
    by (auto simp: save_params_def bind_err_def split: sum.splits)
  with ks show ?thesis unfolding pack_params_Inr by blast
qed

lemma load_written:
  assumes "length ws = 6"
  shows "load_params codec prof
           (write_eeprom_bytes 0 (le16 PARAMS_MAGIC @ concat (map le32 ws)) rom)
         = (case map (f32_unpack codec) ws of
              [l0, l1, l2, h0, h1, h2] \<Rightarrow>
                Inr (prof\<lparr> analog_low_ks := (l0, l1, l2), analog_high_ks := (h0, h1, h2) \<rparr>)
            | _ \<Rightarrow> Inl StructError)"
proof -
  let ?bs = "le16 PARAMS_MAGIC @ concat (map le32 ws)"
  from assms have len: "length ?bs = 26" by (simp add: le16_def length_concat_le32)
  from read_written [of ?bs rom]
  have "map (\<lambda>i. write_eeprom_bytes 0 ?bs rom (i + 100)) [0..<26] = ?bs"
    unfolding len .
  then show ?thesis
    unfolding load_params_def Let_def
    by (simp only: unpack_pack [OF assms] bind_err_Inr prod.case if_True refl simp_thms)
qed

lemma load_params_wrong_magic:
  assumes "rom 100 \<noteq> 0xB2 \<or> rom 101 \<noteq> 0xB0"
  shows "load_params codec prof rom = Inr prof"
proof -
  have "[0..<26] = 0 # 1 # [2..<26]" by (simp add: upt_rec)
  then have "map (\<lambda>i. rom (i + 100)) [0..<26]
      = rom 100 # rom 101 # map (\<lambda>i. rom (i + 100)) [2..<26]"
    by simp
  then have "unpack_params codec (map (\<lambda>i. rom (i + 100)) [0..<26])
      = Inr (of_le16 (rom 100) (rom 101),
             map (f32_unpack codec) (of_le32s (map (\<lambda>i. rom (i + 100)) [2..<26])))"
    by (simp add: unpack_params_def)
  with assms show ?thesis
    by (auto simp: load_params_def bind_err_Inr of_le16_magic)
qed

lemma save_params_total:
  assumes "analog_low_ks prof = (l0, l1, l2)" and "analog_high_ks prof = (h0, h1, h2)"
    and "\<forall>k \<in> {l0, l1, l2, h0, h1, h2}. \<exists>w. f32_pack codec k = Some w"
  shows "\<exists>rom'. save_params codec prof rom = Inr rom'"
proof -
  from assms(3) obtain w0 w1 w2 w3 w4 w5 where
    "f32_pack codec l0 = Some w0" "f32_pack codec l1 = Some w1" "f32_pack codec l2 = Some w2"
    "f32_pack codec h0 = Some w3" "f32_pack codec h1 = Some w4" "f32_pack codec h2 = Some w5"
    by auto
  then show ?thesis
    using assms(1,2) by (simp add: save_params_def pack_params_def bind_err_Inr)
qed

text \<open>
  Claim C6. When \<^verbatim>\<open>save_params\<close> has written the record, \<^verbatim>\<open>load_params\<close>
  on the storage it left sets both coefficient tuples, whatever they were, to the saved
  ones after the single-precision conversion: each coefficient comes back as the value
  of the binary32 bits it was packed to. \<^verbatim>\<open>save_params\<close> writes the record
  whenever all six coefficients can be packed. When the first two bytes of the record
  are not \<open>0xB2\<close>, \<open>0xB0\<close> (the magic number \<open>0xB0B2\<close>, low byte first),
  \<^verbatim>\<open>load_params\<close> leaves both tuples as they were.
\<close>

theorem C6_save_then_load:
  "(save_params codec prof rom = Inr rom' \<longrightarrow>
      (\<exists>l0 l1 l2 h0 h1 h2 w0 w1 w2 w3 w4 w5.
          analog_low_ks prof = (l0, l1, l2) \<and> analog_high_ks prof = (h0, h1, h2)
        \<and> map (f32_pack codec) [l0, l1, l2, h0, h1, h2] = map Some [w0, w1, w2, w3, w4, w5]
        \<and> load_params codec other rom' =
            Inr (other\<lparr>
              analog_low_ks := (f32_unpack codec w0, f32_unpack codec w1, f32_unpack codec w2),
              analog_high_ks := (f32_unpack codec w3, f32_unpack codec w4, f32_unpack codec w5) \<rparr>)))
   \<and> (analog_low_ks prof = (la, lb, lc) \<and> analog_high_ks prof = (ha, hb, hc)
        \<and> (\<forall>k \<in> {la, lb, lc, ha, hb, hc}. \<exists>w. f32_pack codec k = Some w) \<longrightarrow>
          (\<exists>rom''. save_params codec prof rom = Inr rom''))
   \<and> (rom 100 \<noteq> 0xB2 \<or> rom 101 \<noteq> 0xB0 \<longrightarrow> load_params codec prof rom = Inr prof)"
proof -
  have roundtrip: "\<exists>l0 l1 l2 h0 h1 h2 w0 w1 w2 w3 w4 w5.
          analog_low_ks prof = (l0, l1, l2) \<and> analog_high_ks prof = (h0, h1, h2)
        \<and> map (f32_pack codec) [l0, l1, l2, h0, h1, h2] = map Some [w0, w1, w2, w3, w4, w5]
        \<and> load_params codec other rom' =
            Inr (other\<lparr>
              analog_low_ks := (f32_unpack codec w0, f32_unpack codec w1, f32_unpack codec w2),
              analog_high_ks := (f32_unpack codec w3, f32_unpack codec w4, f32_unpack codec w5) \<rparr>)"
    if saved: "save_params codec prof rom = Inr rom'"
  proof -
    from save_params_Inr [OF saved] obtain l0 l1 l2 h0 h1 h2 ws where
      ks: "analog_low_ks prof = (l0, l1, l2)" "analog_high_ks prof = (h0, h1, h2)"
      and ws: "those (map (f32_pack codec) [l0, l1, l2, h0, h1, h2]) = Some ws"
      and rom': "rom' = write_eeprom_bytes 0 (le16 PARAMS_MAGIC @ concat (map le32 ws)) rom"
      by blast
    from ws obtain w0 w1 w2 w3 w4 w5 where
      packed: "f32_pack codec l0 = Some w0" "f32_pack codec l1 = Some w1"
        "f32_pack codec l2 = Some w2" "f32_pack codec h0 = Some w3"
        "f32_pack codec h1 = Some w4" "f32_pack codec h2 = Some w5"
      and list: "ws = [w0, w1, w2, w3, w4, w5]"
      unfolding those_six by blast
    from list have "length ws = 6" by simp
    from load_written [OF this, of codec other rom] rom' list
    have "load_params codec other rom' =
            Inr (other\<lparr>
              analog_low_ks := (f32_unpack codec w0, f32_unpack codec w1, f32_unpack codec w2),
              analog_high_ks := (f32_unpack codec w3, f32_unpack codec w4, f32_unpack codec w5) \<rparr>)"
      by simp
    with ks packed show ?thesis by auto
  qed
  from roundtrip save_params_total [of prof la lb lc ha hb hc codec rom]
    load_params_wrong_magic [of rom codec prof]
  show ?thesis by blast
qed

lemma sample_ks:
  "analog_low_ks sample_profile = (1 / 2, 1, 0)" "analog_high_ks sample_profile = (- 2, 0, 1)"
  by (simp_all add: sample_profile_def)

lemma sample_pack:
  "f32_pack sample_codec 0 = Some 0x00000000" "f32_pack sample_codec (1 / 2) = Some 0x3F000000"
  "f32_pack sample_codec 1 = Some 0x3F800000" "f32_pack sample_codec (- 2) = Some 0xC0000000"
  by (simp_all add: sample_codec_def)

lemma sample_unpack:
  "f32_unpack sample_codec 0x00000000 = 0" "f32_unpack sample_codec 0x3F000000 = 1 / 2"
  "f32_unpack sample_codec 0x3F800000 = 1" "f32_unpack sample_codec 0xC0000000 = - 2"
  by (simp_all add: sample_codec_def)

theorem C6_save_then_load_witness:
  "(\<exists>rom'. save_params sample_codec sample_profile erased_eeprom = Inr rom'
      \<and> load_params sample_codec BS0005 rom' = Inr sample_profile)
   \<and> load_params sample_codec sample_profile erased_eeprom = Inr sample_profile"
proof -
  note inst = C6_save_then_load [where codec = sample_codec and prof = sample_profile
      and rom = erased_eeprom and other = BS0005 and la = "1 / 2" and lb = 1 and lc = 0
      and ha = "- 2" and hb = 0 and hc = 1]
  have "\<forall>k \<in> {1 / 2, 1, 0, - 2, 0, 1 :: real}. \<exists>w. f32_pack sample_codec k = Some w"
    by (simp add: sample_pack)
  with inst sample_ks obtain rom' where
    saved: "save_params sample_codec sample_profile erased_eeprom = Inr rom'"
    by blast
  from inst [of rom'] saved obtain l0 l1 l2 h0 h1 h2 w0 w1 w2 w3 w4 w5 where
    ks: "analog_low_ks sample_profile = (l0, l1, l2)"
      "analog_high_ks sample_profile = (h0, h1, h2)"
    and packed: "map (f32_pack sample_codec) [l0, l1, l2, h0, h1, h2]
               = map Some [w0, w1, w2, w3, w4, w5]"
    and loaded: "load_params sample_codec BS0005 rom' =
        Inr (BS0005\<lparr>
          analog_low_ks := (f32_unpack sample_codec w0, f32_unpack sample_codec w1,
                            f32_unpack sample_codec w2),
          analog_high_ks := (f32_unpack sample_codec w3, f32_unpack sample_codec w4,
                             f32_unpack sample_codec w5) \<rparr>)"
    by blast
  from ks have "l0 = 1 / 2" "l1 = 1" "l2 = 0" "h0 = - 2" "h1 = 0" "h2 = 1"
    unfolding sample_ks by simp_all
  with packed have "w0 = 0x3F000000" "w1 = 0x3F800000" "w2 = 0" "w3 = 0xC0000000" "w4 = 0"
    "w5 = 0x3F800000"
    by (simp_all add: sample_pack)
  with loaded have 1: "load_params sample_codec BS0005 rom' = Inr sample_profile"
    by (simp add: sample_unpack sample_profile_def)
  have "erased_eeprom 100 \<noteq> 0xB2" by (simp add: erased_eeprom_def)
  with inst have 2: "load_params sample_codec sample_profile erased_eeprom = Inr sample_profile"
    by blast
  from saved 1 2 show ?thesis by blast
qed

section \<open>The serial stream: write and drain\<close>

lemma new_stream_inv: "stream_inv new_stream"
  by (simp add: stream_inv_def new_stream_def)

lemma written_count_le: "written_count att data = Some n \<Longrightarrow> n \<le> length data"
  by (auto simp: written_count_def split: attempt.splits)

lemma stream_write_step:
  assumes "stream_write att data st = Inr st'"
  shows "(output_buffer st \<noteq> [] \<longrightarrow>
            output_buffer st' = output_buffer st @ data \<and> delivered st' = delivered st)
       \<and> (output_buffer st = [] \<longrightarrow>
            (\<exists>n \<le> length data. written_count att data = Some n
               \<and> delivered st' = delivered st @ take n data \<and> output_buffer st' = drop n data))"
  using assms
  by (auto simp: stream_write_def bind_err_def written_count_le
      split: if_splits option.splits)

lemma stream_write_inv:
  assumes "stream_write att data st = Inr st'" and "stream_inv st"
  shows "stream_inv st'
       \<and> delivered st' @ output_buffer st' = delivered st @ output_buffer st @ data
       \<and> (output_buffer_empty st \<noteq> Some Failed \<longrightarrow> output_buffer_empty st' \<noteq> Some Failed)"
  using assms
  by (auto simp: stream_write_def bind_err_def stream_inv_def
      split: if_splits option.splits)

lemma feed_data_inv:
  assumes "stream_inv st" and "writer st"
  shows "stream_inv (feed_data att st)
       \<and> delivered (feed_data att st) @ output_buffer (feed_data att st)
           = delivered st @ output_buffer st
       \<and> (att \<noteq> Breaks \<longrightarrow> output_buffer_empty (feed_data att st) \<noteq> Some Failed)"
  using assms
  by (auto simp: feed_data_def stream_inv_def Let_def written_count_def
      split: option.splits attempt.splits)

lemma run_inv:
  assumes "run calls st = Inr st'" and "stream_inv st"
  shows "stream_inv st'
       \<and> delivered st' @ output_buffer st' = delivered st @ output_buffer st @ written calls
       \<and> (output_buffer_empty st \<noteq> Some Failed \<and> (\<forall>c \<in> set calls. c \<noteq> Ready Breaks) \<longrightarrow>
            output_buffer_empty st' \<noteq> Some Failed)"
  using assms
proof (induction calls st rule: run.induct)
  case (1 st)
  then show ?case by simp
next
  case (2 data att calls st)
  from "2.prems"(1) obtain st1 where w: "stream_write att data st = Inr st1"
    and r: "run calls st1 = Inr st'"
    by (auto simp: bind_err_def split: sum.splits)
  from stream_write_inv [OF w "2.prems"(2)] have inv1: "stream_inv st1"
    and c1: "delivered st1 @ output_buffer st1 = delivered st @ output_buffer st @ data"
    and f1: "output_buffer_empty st \<noteq> Some Failed \<longrightarrow> output_buffer_empty st1 \<noteq> Some Failed"
    by blast+
  from "2.IH" [OF r inv1] c1 f1 show ?case by simp
next
  case (3 att calls st)
  let ?st1 = "if writer st then feed_data att st else st"
  from "3.prems"(1) have r: "run calls ?st1 = Inr st'" by simp
  have inv1: "stream_inv ?st1"
    and c1: "delivered ?st1 @ output_buffer ?st1 = delivered st @ output_buffer st"
    and f1: "output_buffer_empty st \<noteq> Some Failed \<and> att \<noteq> Breaks \<longrightarrow>
               output_buffer_empty ?st1 \<noteq> Some Failed"
    using feed_data_inv [OF "3.prems"(2), of att] "3.prems"(2) by auto
  from "3.IH" [OF r inv1] c1 f1 show ?case by auto
qed

lemma drain_returns:
  assumes "drain atts st = Inr (st', rest)" and "stream_inv st"
  shows "delivered st' = delivered st @ output_buffer st \<and> output_buffer st' = []
       \<and> output_buffer_empty st' = None"
  using assms
proof (induction atts arbitrary: st)
  case Nil
  then show ?case
    by (auto simp: stream_inv_def split: option.splits future.splits)
next
  case (Cons att atts)
  show ?case
  proof (cases "output_buffer_empty st")
    case None
    with Cons.prems show ?thesis by (auto simp: stream_inv_def)
  next
    case (Some fu)
    with Cons.prems have p: "fu = Pending" and w: "writer st"
      and d: "drain atts (feed_data att st) = Inr (st', rest)"
      by (auto split: future.splits if_splits)
    from feed_data_inv [OF Cons.prems(2) w, of att] Cons.IH [OF d] show ?thesis by simp
  qed
qed

lemma drain_empty:
  assumes "stream_inv st" and "output_buffer st = []"
  shows "drain atts st = Inr (st, atts)"
  using assms by (cases atts) (auto simp: stream_inv_def)

lemma feed_data_progress:
  assumes "stream_inv st" and "writer st" and "1 \<le> k"
  shows "length (output_buffer (feed_data (Accepts k) st)) < length (output_buffer st)"
  using assms
  by (auto simp: feed_data_def stream_inv_def Let_def written_count_def)

lemma drain_live:
  assumes "stream_inv st" and "output_buffer_empty st \<noteq> Some Failed"
    and "\<forall>a \<in> set atts. \<exists>k. a = Accepts k \<and> 1 \<le> k"
    and "length (output_buffer st) \<le> length atts"
  shows "\<exists>st' rest. drain atts st = Inr (st', rest)"
  using assms
proof (induction atts arbitrary: st)
  case Nil
  then show ?case by (auto simp: stream_inv_def)
next
  case (Cons att atts)
  show ?case
  proof (cases "output_buffer_empty st")
    case None
    then show ?thesis by simp
  next
    case (Some fu)
    with Cons.prems(2) have p: "output_buffer_empty st = Some Pending" by (cases fu) auto
    with Cons.prems(1) have w: "writer st" by (simp add: stream_inv_def)
    from Cons.prems(3) obtain k where k: "att = Accepts k" "1 \<le> k" by auto
    from feed_data_inv [OF Cons.prems(1) w, of att] k
    have inv1: "stream_inv (feed_data att st)"
      and f1: "output_buffer_empty (feed_data att st) \<noteq> Some Failed"
      by auto
    from feed_data_progress [OF Cons.prems(1) w k(2)] k(1) Cons.prems(4)
    have "length (output_buffer (feed_data att st)) \<le> length atts" by simp
    from Cons.IH [OF inv1 f1 _ this] Cons.prems(3) p w show ?thesis by simp
  qed
qed

text \<open>
  Claim C7. Take a new stream and any sequence of \<^verbatim>\<open>write\<close> calls that return,
  with turns of the loop in between. The bytes accepted by the connection followed by
  the output buffer are the bytes of the calls in the order written; a call made with
  bytes still in the buffer appends its data to the buffer, and one made with an empty
  buffer leaves there what the connection did not take. When \<^verbatim>\<open>drain\<close> then
  returns, the buffer is empty and the connection has accepted exactly the bytes written,
  in order, however few bytes each attempt took. It does return when no attempt raised an
  error, each later attempt takes at least one byte and there are as many attempts as
  bytes in the buffer. With an empty buffer it returns at once, with no attempt made.
\<close>

theorem C7_write_then_drain:
  assumes "run calls new_stream = Inr st"
  shows "delivered st @ output_buffer st = written calls
       \<and> (\<forall>atts st' rest. drain atts st = Inr (st', rest) \<longrightarrow>
             delivered st' = written calls \<and> output_buffer st' = [])
       \<and> (\<forall>atts. (\<forall>c \<in> set calls. c \<noteq> Ready Breaks)
               \<and> (\<forall>a \<in> set atts. \<exists>k. a = Accepts k \<and> 1 \<le> k)
               \<and> length (output_buffer st) \<le> length atts \<longrightarrow>
             (\<exists>st' rest. drain atts st = Inr (st', rest)))
       \<and> (output_buffer st = [] \<longrightarrow> (\<forall>atts. drain atts st = Inr (st, atts)))
       \<and> (\<forall>att data s s'. stream_write att data s = Inr s' \<longrightarrow>
             (output_buffer s \<noteq> [] \<longrightarrow>
                output_buffer s' = output_buffer s @ data \<and> delivered s' = delivered s)
           \<and> (output_buffer s = [] \<longrightarrow>
                (\<exists>n \<le> length data. written_count att data = Some n
                   \<and> delivered s' = delivered s @ take n data
                   \<and> output_buffer s' = drop n data)))"
proof -
  from run_inv [OF assms new_stream_inv]
  have inv: "stream_inv st" and all: "delivered st @ output_buffer st = written calls"
    and ok: "(\<forall>c \<in> set calls. c \<noteq> Ready Breaks) \<longrightarrow> output_buffer_empty st \<noteq> Some Failed"
    by (simp_all add: new_stream_def)
  have returned: "delivered st' = written calls \<and> output_buffer st' = []"
    if "drain atts st = Inr (st', rest)" for atts st' rest
    using drain_returns [OF that inv] all by simp
  have live: "\<exists>st' rest. drain atts st = Inr (st', rest)"
    if "\<forall>c \<in> set calls. c \<noteq> Ready Breaks" and "\<forall>a \<in> set atts. \<exists>k. a = Accepts k \<and> 1 \<le> k"
      and "length (output_buffer st) \<le> length atts" for atts
    using drain_live [OF inv _ that(2,3)] ok that(1) by blast
  have at_once: "drain atts st = Inr (st, atts)" if "output_buffer st = []" for atts
    using drain_empty [OF inv that] .
  from all returned live at_once stream_write_step show ?thesis by blast
qed

lemma sample_run:
  "run sample_calls new_stream =
     Inr \<lparr> output_buffer = [4, 5, 6, 7], output_buffer_empty = Some Pending, writer = True,
           delivered = [1, 2, 3] \<rparr>"
  by (simp add: sample_calls_def stream_write_def written_count_def new_stream_def bind_err_def)

lemma empty_run: "run [] new_stream = Inr new_stream"
  by simp

theorem C7_write_then_drain_witness:
  "(\<exists>st. run sample_calls new_stream = Inr st
      \<and> output_buffer st = [4, 5, 6, 7] \<and> delivered st = [1, 2, 3]
      \<and> (\<exists>st' rest. drain [Accepts 3, Accepts 3, Accepts 1, Accepts 2] st = Inr (st', rest)
            \<and> delivered st' = [1, 2, 3, 4, 5, 6, 7] \<and> output_buffer st' = []))
   \<and> drain [Accepts 3] new_stream = Inr (new_stream, [Accepts 3])
   \<and> (\<exists>st. stream_write (Accepts 3) [1, 2, 3, 4, 5] new_stream = Inr st
        \<and> delivered st = [1, 2, 3] \<and> output_buffer st = [4, 5])"
proof -
  let ?st = "\<lparr> output_buffer = [4, 5, 6, 7], output_buffer_empty = Some Pending, writer = True,
           delivered = [1, 2, 3 :: byte] \<rparr>"
  let ?atts = "[Accepts 3, Accepts 3, Accepts 1, Accepts 2]"
  note inst = C7_write_then_drain [OF sample_run]
  have calls: "\<forall>c \<in> set sample_calls. c \<noteq> Ready Breaks" by (simp add: sample_calls_def)
  have atts: "\<forall>a \<in> set ?atts. \<exists>k. a = Accepts k \<and> 1 \<le> k" by simp
  have len: "length (output_buffer ?st) \<le> length ?atts" by simp
  from inst calls atts len obtain st' rest where d: "drain ?atts ?st = Inr (st', rest)"
    by blast
  with inst have "delivered st' = written sample_calls" and "output_buffer st' = []"
    by blast+
  moreover have "written sample_calls = [1, 2, 3, 4, 5, 6, 7]"
    by (simp add: sample_calls_def)
  ultimately have 1: "\<exists>st. run sample_calls new_stream = Inr st
      \<and> output_buffer st = [4, 5, 6, 7] \<and> delivered st = [1, 2, 3]
      \<and> (\<exists>st' rest. drain ?atts st = Inr (st', rest)
            \<and> delivered st' = [1, 2, 3, 4, 5, 6, 7] \<and> output_buffer st' = [])"
    using sample_run d by simp
  note fresh = C7_write_then_drain [OF empty_run]
  have "output_buffer new_stream = []" by (simp add: new_stream_def)
  with fresh have 2: "drain [Accepts 3] new_stream = Inr (new_stream, [Accepts 3])" by blast
  obtain st where w: "stream_write (Accepts 3) [1, 2, 3, 4, 5] new_stream = Inr st"
    by (simp add: stream_write_def written_count_def new_stream_def bind_err_def)
  have n: "written_count (Accepts 3) [1, 2, 3, 4, 5 :: byte] = Some 3"
    by (simp add: written_count_def)
  from fresh w \<open>output_buffer new_stream = []\<close>
  obtain k where "written_count (Accepts 3) [1, 2, 3, 4, 5 :: byte] = Some k"
    and "delivered st = delivered new_stream @ take k [1, 2, 3, 4, 5]"
    and "output_buffer st = drop k [1, 2, 3, 4, 5]"
    by blast
  with n have "delivered st = [1, 2, 3]" and "output_buffer st = [4, 5]"
    by (simp_all add: new_stream_def)
  with w have 3: "\<exists>st. stream_write (Accepts 3) [1, 2, 3, 4, 5] new_stream = Inr st
        \<and> delivered st = [1, 2, 3] \<and> output_buffer st = [4, 5]"
    by blast
  from 1 2 3 show ?thesis by blast
qed

end
